theory Spec2Isabelle
  imports Main "HOL-Library.Word"
begin

unbundle bit_operations_syntax

section \<open>Constants and data of the union file system helpers\<close>

text \<open>
  The helpers of \<^verbatim>\<open>helpers.c\<close> return C integers: zero or a result kind on success, a
  negated errno value on failure. The errno numbers are those of Linux. The source writes
  \<^verbatim>\<open>-EACCESS\<close> in \<^verbatim>\<open>can_access\<close> and \<^verbatim>\<open>-EACCES\<close> in \<^verbatim>\<open>can_remove\<close>; both are read as the
  permission error \<open>EACCES\<close>.
\<close>

definition EACCES :: int where "EACCES = 13"
definition ENOENT :: int where "ENOENT = 2"
definition ENAMETOOLONG :: int where "ENAMETOOLONG = 36"
definition ENODATA :: int where "ENODATA = 61"

text \<open>The buffer size of every path buffer, terminator included.\<close>

definition PATH_MAX :: nat where "PATH_MAX = 4096"

text \<open>
  Access request bits, as the comment in \<^verbatim>\<open>can_access\<close> gives them: 4 read, 2 write,
  1 execute; a triplet is three bits wide.
\<close>

definition R_OK :: "32 word" where "R_OK = 4"
definition W_OK :: "32 word" where "W_OK = 2"
definition X_OK :: "32 word" where "X_OK = 1"
definition RIGHTS_MASK :: nat where "RIGHTS_MASK = 3"

text \<open>The fields of \<^verbatim>\<open>struct kstat\<close> that the helpers read.\<close>

record kstat =
  st_mode :: "16 word"
  st_uid :: "32 word"
  st_gid :: "32 word"

text \<open>
  Calls into the kernel and into the other files of the driver, in the order they are
  made. Each function of the model returns the calls it made together with its result.
\<close>

datatype event =
    Call_vfs_lstat string
  | Call_get_file_attr_worker string string
  | Call_find_whiteout string
  | Call_create_copyup string string

text \<open>
  The mount: the two branch roots of the global \<^verbatim>\<open>context\<close>, and the functions the
  helpers call but do not define. Each is a function of its arguments: within one call
  of a helper nothing else changes the file system. \<^verbatim>\<open>create_copyup\<close> returns its
  status and what it wrote to \<^verbatim>\<open>real_path\<close>.
\<close>

record world =
  read_only_branch :: string
  read_write_branch :: string
  vfs_lstat :: "string \<Rightarrow> int"
  get_file_attr_worker :: "string \<Rightarrow> string \<Rightarrow> int \<times> kstat"
  sys_geteuid :: "32 word"
  sys_getegid :: "32 word"
  find_whiteout :: "string \<Rightarrow> int"
  create_copyup :: "string \<Rightarrow> string \<Rightarrow> int \<times> string"

section \<open>can_access\<close>

text \<open>Lines 63 to 76: shift the request to the triplet that applies and compare.\<close>

definition match_attributes :: "world \<Rightarrow> kstat \<Rightarrow> 32 word \<Rightarrow> int" where
  "match_attributes w stbuf mode =
     (let euid = sys_geteuid w; egid = sys_getegid w;
          mode' = (if euid = st_uid stbuf then push_bit (RIGHTS_MASK * 2) mode
                   else if egid = st_gid stbuf then push_bit RIGHTS_MASK mode
                   else mode)
      in if mode' AND ucast (st_mode stbuf) = mode' then 0 else - EACCES)"

definition can_access :: "world \<Rightarrow> string \<Rightarrow> string \<Rightarrow> 32 word \<Rightarrow> event list \<times> int" where
  "can_access w path real_path mode =
     (let (err, stbuf) = get_file_attr_worker w path real_path;
          calls = [Call_get_file_attr_worker path real_path]
      in if err \<noteq> 0 then (calls, err)
         else if sys_geteuid w = 0 then
           (if mode AND X_OK \<noteq> 0 then
              (if X_OK AND ucast (st_mode stbuf) \<noteq> 0
                  \<or> push_bit RIGHTS_MASK X_OK AND ucast (st_mode stbuf) \<noteq> 0
                  \<or> push_bit (RIGHTS_MASK * 2) X_OK AND ucast (st_mode stbuf) \<noteq> 0
               then (calls, 0)
               else (calls, match_attributes w stbuf mode))
            else (calls, 0))
         else (calls, match_attributes w stbuf mode))"

text \<open>
  The permission rule in the specification's words: the triplet \<open>k\<close> of a mode (2 the
  owner's, 1 the group's, 0 the others'), the triplet that applies to the caller, and
  whether a request is granted.
\<close>

definition triplet :: "kstat \<Rightarrow> nat \<Rightarrow> 32 word" where
  "triplet stbuf k = drop_bit (3 * k) (ucast (st_mode stbuf)) AND 7"

definition selected_triplet :: "world \<Rightarrow> kstat \<Rightarrow> 32 word" where
  "selected_triplet w stbuf =
     (if sys_geteuid w = st_uid stbuf then triplet stbuf 2
      else if sys_getegid w = st_gid stbuf then triplet stbuf 1
      else triplet stbuf 0)"

definition some_execute_bit :: "kstat \<Rightarrow> bool" where
  "some_execute_bit stbuf =
     (bit (triplet stbuf 2) 0 \<or> bit (triplet stbuf 1) 0 \<or> bit (triplet stbuf 0) 0)"

definition access_granted :: "world \<Rightarrow> kstat \<Rightarrow> 32 word \<Rightarrow> bool" where
  "access_granted w stbuf mode =
     (if sys_geteuid w = 0 then (if bit mode 0 then some_execute_bit stbuf else True)
      else mode AND selected_triplet w stbuf = mode)"

section \<open>C strings\<close>

text \<open>
  A C string is modelled by the list of its characters before the terminator, and a
  pointer into it by an index. \<open>strchr_from s i c\<close> is \<^verbatim>\<open>strchr(s + i, c)\<close>: the index of
  the first \<open>c\<close> at or after \<open>i\<close>, \<open>None\<close> for the null pointer. \<open>strrchr\<close> gives the
  index of the last \<open>c\<close>.
\<close>

definition strchr_from :: "string \<Rightarrow> nat \<Rightarrow> char \<Rightarrow> nat option" where
  "strchr_from s i c = List.find (\<lambda>j. s ! j = c) [i..<length s]"

definition strrchr :: "string \<Rightarrow> char \<Rightarrow> nat option" where
  "strrchr s c = List.find (\<lambda>j. s ! j = c) (rev [0..<length s])"

text \<open>
  \<^verbatim>\<open>snprintf(buf, cap, ...)\<close> with the formatted text \<open>s\<close>: it returns the length of
  \<open>s\<close> and writes at most \<open>cap - 1\<close> characters of it.
\<close>

definition snprintf :: "nat \<Rightarrow> string \<Rightarrow> nat \<times> string" where
  "snprintf cap s = (length s, take (cap - 1) s)"

text \<open>
  Modelled from the spec: the macros \<^verbatim>\<open>make_rw_path\<close> and \<^verbatim>\<open>make_ro_path\<close> are declared in
  the driver's header, which is not among the sources. They concatenate a branch root
  with the union path into a buffer of \<open>PATH_MAX\<close> bytes and return the length of the
  concatenation, which \<^verbatim>\<open>find_file\<close> compares with \<open>PATH_MAX\<close>; they are written with
  \<open>snprintf\<close>, as the same test in \<^verbatim>\<open>can_traverse\<close> is.
\<close>

definition make_rw_path :: "world \<Rightarrow> string \<Rightarrow> nat \<times> string" where
  "make_rw_path w path = snprintf PATH_MAX (read_write_branch w @ path)"

definition make_ro_path :: "world \<Rightarrow> string \<Rightarrow> nat \<times> string" where
  "make_ro_path w path = snprintf PATH_MAX (read_only_branch w @ path)"

section \<open>can_remove\<close>

text \<open>
  The result is \<open>None\<close> where the C code has no defined behaviour: without a slash in
  \<^verbatim>\<open>real_path\<close>, \<^verbatim>\<open>strrchr\<close> returns the null pointer and the length given to
  \<^verbatim>\<open>strncpy\<close> is a difference with a null pointer; and with \<open>PATH_MAX\<close> characters or
  more in front of the last slash, the terminator is written behind the end of
  \<^verbatim>\<open>parent_path\<close>.
\<close>

definition can_remove :: "world \<Rightarrow> string \<Rightarrow> string \<Rightarrow> (event list \<times> int) option" where
  "can_remove w path real_path =
     (case strrchr real_path CHR ''/'' of
        None \<Rightarrow> None
      | Some parent \<Rightarrow>
          if parent = 0 then Some ([], - EACCES)
          else if PATH_MAX \<le> parent then None
          else let parent_path = take parent real_path
               in Some (can_access w path parent_path W_OK))"

section \<open>can_traverse\<close>

text \<open>
  The loop of \<^verbatim>\<open>can_traverse\<close>. \<^verbatim>\<open>strncat\<close> appends the characters between
  \<^verbatim>\<open>old_directory\<close> and \<^verbatim>\<open>directory\<close> to both buffers; it does not know their size, so
  a text that no longer fits in \<open>PATH_MAX\<close> bytes is written past the end of the buffer:
  the result is \<open>None\<close> there.
\<close>

function traverse_loop ::
  "world \<Rightarrow> string \<Rightarrow> string \<Rightarrow> string \<Rightarrow> nat \<Rightarrow> nat option \<Rightarrow> (event list \<times> int) option" where
  "traverse_loop w path short_path long_path old_directory directory =
     (case directory of
        None \<Rightarrow> Some ([], 0)
      | Some d \<Rightarrow>
          let short_path' = short_path @ take (d - old_directory) (drop old_directory path);
              long_path' = long_path @ take (d - old_directory) (drop old_directory path)
          in if PATH_MAX \<le> length short_path' \<or> PATH_MAX \<le> length long_path' then None
             else if snd (can_access w short_path' long_path' X_OK) < 0
               then Some (can_access w short_path' long_path' X_OK)
             else
               (case traverse_loop w path short_path' long_path' d
                       (strchr_from path (d + 1) CHR ''/'') of
                  None \<Rightarrow> None
                | Some (calls, err) \<Rightarrow>
                    Some (fst (can_access w short_path' long_path' X_OK) @ calls, err)))"
  by pat_completeness auto
termination
  by (relation "measure (\<lambda>(w, path, short_path, long_path, old_directory, directory).
        case directory of None \<Rightarrow> 0 | Some d \<Rightarrow> Suc (length path - d))")
     (auto simp: strchr_from_def find_Some_iff split: option.splits)

declare traverse_loop.simps [simp del]

text \<open>
  An empty \<^verbatim>\<open>path\<close> has no defined behaviour either: \<^verbatim>\<open>path + 1\<close> points behind its
  terminator.
\<close>

definition can_traverse :: "world \<Rightarrow> string \<Rightarrow> (event list \<times> int) option" where
  "can_traverse w path =
     (let short_path = snd (snprintf PATH_MAX ''/'');
          (n, long_path) = snprintf PATH_MAX (read_only_branch w @ ''/'')
      in if n > PATH_MAX then Some ([], - ENAMETOOLONG)
         else if path = [] then None
         else if strrchr path CHR ''/'' = Some 0 then Some ([], 0)
         else traverse_loop w path short_path long_path 1 (strchr_from path 1 CHR ''/''))"

section \<open>find_file\<close>

text \<open>
  Modelled from the spec: the four flags of \<^verbatim>\<open>find_file\<close> and the macro \<^verbatim>\<open>is_flag_set\<close>
  are declared in the driver's header, which is not among the sources. The flags combine
  independently, so a flag value is the set of the flags it holds. The three result kinds
  are the enumeration of the header; \<^verbatim>\<open>find_file\<close> returns one of them (\<open>Inr\<close>) or an
  error number (\<open>Inl\<close>).
\<close>

datatype flag = MUST_READ_ONLY | MUST_READ_WRITE | CREATE_COPYUP | IGNORE_WHITEOUT

definition is_flag_set :: "flag set \<Rightarrow> flag \<Rightarrow> bool" where
  "is_flag_set flags v = (v \<in> flags)"

datatype branch_kind = READ_ONLY | READ_WRITE | READ_WRITE_COPYUP

type_synonym found = "event list \<times> (int + branch_kind) \<times> string"

text \<open>The calls made before a step, put in front of the calls of the step.\<close>

definition after :: "event list \<Rightarrow> found option \<Rightarrow> found option" where
  "after calls r = map_option (\<lambda>(calls', x). (calls @ calls', x)) r"

text \<open>
  Lines 159 to 164, 189 to 192 and 219 to 224: the traversal check, and what happens
  once it has passed.
\<close>

definition check_traverse :: "world \<Rightarrow> string \<Rightarrow> string \<Rightarrow> found option \<Rightarrow> found option" where
  "check_traverse w path real_path continue =
     (case can_traverse w path of
        None \<Rightarrow> None
      | Some (calls, err) \<Rightarrow>
          if err < 0 then Some (calls, Inl err, real_path) else after calls continue)"

text \<open>
  Lines 169 to 198 and 228: the copy-up branch. A negative result of \<^verbatim>\<open>find_whiteout\<close>
  is returned; any other result lets the copy-up go on.
\<close>

definition find_file_copyup :: "world \<Rightarrow> string \<Rightarrow> string \<Rightarrow> flag set \<Rightarrow> found option" where
  "find_file_copyup w path real_path flags =
     (let (n, tmp_path) = make_ro_path w path
      in if n > PATH_MAX then Some ([], Inl (- ENAMETOOLONG), real_path)
         else if vfs_lstat w tmp_path < 0
           then Some ([Call_vfs_lstat tmp_path], Inl (vfs_lstat w tmp_path), real_path)
         else after [Call_vfs_lstat tmp_path]
           (if \<not> is_flag_set flags IGNORE_WHITEOUT \<and> find_whiteout w path < 0
              then Some ([Call_find_whiteout path], Inl (find_whiteout w path), real_path)
            else after (if \<not> is_flag_set flags IGNORE_WHITEOUT then [Call_find_whiteout path] else [])
              (check_traverse w path real_path
                 (let (err, real_path') = create_copyup w path tmp_path
                  in if err = 0
                     then Some ([Call_create_copyup path tmp_path], Inr READ_WRITE_COPYUP, real_path')
                     else Some ([Call_create_copyup path tmp_path], Inl err, real_path')))))"

text \<open>
  Lines 199 to 225: the read-only branch. Here the result 0 of \<^verbatim>\<open>find_whiteout\<close> means
  that the whiteout exists, and the file is reported as missing.
\<close>

definition find_file_ro :: "world \<Rightarrow> string \<Rightarrow> flag set \<Rightarrow> found option" where
  "find_file_ro w path flags =
     (let (n, real_path) = make_ro_path w path
      in if n > PATH_MAX then Some ([], Inl (- ENAMETOOLONG), real_path)
         else if vfs_lstat w real_path < 0
           then Some ([Call_vfs_lstat real_path], Inl (vfs_lstat w real_path), real_path)
         else after [Call_vfs_lstat real_path]
           (if \<not> is_flag_set flags IGNORE_WHITEOUT \<and> find_whiteout w path = 0
              then Some ([Call_find_whiteout path], Inl (- ENOENT), real_path)
            else after (if \<not> is_flag_set flags IGNORE_WHITEOUT then [Call_find_whiteout path] else [])
              (check_traverse w path real_path (Some ([], Inr READ_ONLY, real_path)))))"

text \<open>
  \<^verbatim>\<open>find_file\<close> itself: the calls it made, its result and the contents of \<^verbatim>\<open>real_path\<close>
  when it returns.
\<close>

definition find_file :: "world \<Rightarrow> string \<Rightarrow> string \<Rightarrow> flag set \<Rightarrow> found option" where
  "find_file w path real_path flags =
     (if \<not> is_flag_set flags MUST_READ_ONLY then
        (let (n, real_path') = make_rw_path w path
         in if n > PATH_MAX then Some ([], Inl (- ENAMETOOLONG), real_path')
            else if vfs_lstat w real_path' < 0 then
              (if is_flag_set flags MUST_READ_WRITE
               then Some ([Call_vfs_lstat real_path'], Inl (vfs_lstat w real_path'), real_path')
               else after [Call_vfs_lstat real_path']
                      (if is_flag_set flags CREATE_COPYUP
                       then find_file_copyup w path real_path' flags
                       else find_file_ro w path flags))
            else after [Call_vfs_lstat real_path']
                   (check_traverse w path real_path' (Some ([], Inr READ_WRITE, real_path'))))
      else if is_flag_set flags CREATE_COPYUP then find_file_copyup w path real_path flags
      else find_file_ro w path flags)"

section \<open>get_full_path and get_relative_path\<close>

text \<open>
  Buffers are lists of bytes here, with the terminator a byte of its own. The bytes of a
  buffer that the model does not know (an array that was never written, or memory
  behind an array) are not in the list, and reading them is a result of its own.
\<close>

definition NUL :: char where "NUL = CHR 0x00"

datatype stop = Assertion_failed | Undefined

text \<open>
  \<^verbatim>\<open>strncmp(a, buf, n) == 0\<close>, for a string \<open>a\<close> and the bytes \<open>buf\<close> of a buffer: \<open>None\<close>
  when the comparison reads behind the bytes that are known.
\<close>

fun strncmp_eq :: "string \<Rightarrow> string \<Rightarrow> nat \<Rightarrow> bool option" where
  "strncmp_eq a buf 0 = Some True"
| "strncmp_eq [] [] (Suc n) = None"
| "strncmp_eq [] (c # buf) (Suc n) = Some (c = NUL)"
| "strncmp_eq (x # a) [] (Suc n) = None"
| "strncmp_eq (x # a) (c # buf) (Suc n) = (if x = c then strncmp_eq a buf n else Some False)"

text \<open>
  A directory entry is given by the names on the way from it up to the root of the
  file system, its own name first; the root is the empty list (\<^verbatim>\<open>IS_ROOT\<close>), \<^verbatim>\<open>d_name\<close>
  the head and \<^verbatim>\<open>d_parent\<close> the tail. Of an inode the link count and the first alias,
  if there is one, are kept.
\<close>

type_synonym dentry = "string list"

record inode =
  i_nlink :: nat
  i_dentry :: "dentry option"

text \<open>\<^verbatim>\<open>MAX_PATH\<close>, the size of the buffers of these two functions, is read as \<open>PATH_MAX\<close>.\<close>

definition MAX_PATH :: nat where "MAX_PATH = 4096"

text \<open>
  The loop of lines 251 to 260. \<open>text\<close> holds the bytes of \<^verbatim>\<open>tmp_path\<close> from \<^verbatim>\<open>end\<close> to
  the end of the array; every round puts a slash and a name in front of it. \<open>namelen\<close>
  is \<open>None\<close> as long as the variable has not been assigned. The result \<open>None\<close> is the
  jump to \<^verbatim>\<open>Elong_unlock\<close>.
\<close>

fun ancestry_loop ::
  "dentry \<Rightarrow> string \<Rightarrow> int \<Rightarrow> nat option \<Rightarrow> (string \<times> int \<times> nat option) option" where
  "ancestry_loop [] text buflen namelen = Some (text, buflen, namelen)"
| "ancestry_loop (d_name # d_parent) text buflen namelen =
     (if buflen - (int (length d_name) + 1) < 0 then None
      else ancestry_loop d_parent (CHR ''/'' # d_name @ text)
             (buflen - (int (length d_name) + 1)) (Some (length d_name)))"

text \<open>
  \<^verbatim>\<open>get_full_path\<close>: its return value and the bytes it copies to \<^verbatim>\<open>real_path\<close> (none on
  the error path). The destination of the last \<^verbatim>\<open>memcpy\<close> is written \<^verbatim>\<open>path\<close> in the
  source, a name the function does not declare; it is read as the parameter
  \<^verbatim>\<open>real_path\<close>. After the loop, \<^verbatim>\<open>end\<close> moves back by \<^verbatim>\<open>namelen\<close>, the length of the
  name handled last, and that many bytes of the literal \<^verbatim>\<open>"/"\<close>, which has two, are
  copied there. The behaviour is not defined when \<^verbatim>\<open>namelen\<close> was never assigned (the
  entry is a root), when it is more than two, when \<^verbatim>\<open>end\<close> leaves the array, or without
  any entry to start from. The last \<^verbatim>\<open>memcpy\<close> copies \<^verbatim>\<open>buflen\<close> bytes, the room that is
  left, and the same number is returned; where this is more than the text, the copy
  goes on behind \<^verbatim>\<open>tmp_path\<close> and the model keeps the bytes of the text only.
\<close>

definition get_full_path :: "inode \<Rightarrow> dentry option \<Rightarrow> stop + int \<times> string" where
  "get_full_path inode dentry =
     (if i_nlink inode \<noteq> 0 then Inl Assertion_failed
      else case (case dentry of None \<Rightarrow> i_dentry inode | Some d \<Rightarrow> Some d) of
        None \<Rightarrow> Inl Undefined
      | Some d \<Rightarrow>
          (case ancestry_loop d [NUL] (int MAX_PATH - 1) None of
             None \<Rightarrow> Inr (- ENAMETOOLONG, [])
           | Some (text, buflen, namelen) \<Rightarrow>
               if buflen - 1 < 0 then Inr (- ENAMETOOLONG, [])
               else (case namelen of
                       None \<Rightarrow> Inl Undefined
                     | Some k \<Rightarrow>
                         if 2 < k \<or> buflen < int k then Inl Undefined
                         else Inr (buflen - 1,
                                   take (nat (buflen - 1)) (take k [CHR ''/'', NUL] @ text)))))"

text \<open>The lengths of the branch roots, kept beside them at mount time.\<close>

definition ro_len :: "world \<Rightarrow> nat" where
  "ro_len w = length (read_only_branch w)"

definition rw_len :: "world \<Rightarrow> nat" where
  "rw_len w = length (read_write_branch w)"

text \<open>
  \<^verbatim>\<open>memcpy(path, real_path + 1 + blen, len - 1 - blen)\<close>: the bytes of \<^verbatim>\<open>real_path\<close> that
  are copied to \<^verbatim>\<open>path\<close>. No terminator is written. A negative count, and a copy that
  reads behind the known bytes of \<^verbatim>\<open>real_path\<close>, give \<open>None\<close>.
\<close>

definition copy_after_branch :: "string \<Rightarrow> nat \<Rightarrow> int \<Rightarrow> string option" where
  "copy_after_branch real_path blen len =
     (if len - 1 - int blen < 0 \<or> int (length real_path) < len then None
      else Some (take (nat (len - 1 - int blen)) (drop (1 + blen) real_path)))"

text \<open>
  \<^verbatim>\<open>get_relative_path\<close>: the status it returns and the bytes it writes to \<^verbatim>\<open>path\<close>. The
  field names \<^verbatim>\<open>ro_lean\<close> and \<^verbatim>\<open>rw_lean\<close> of the source are read as \<^verbatim>\<open>ro_len\<close> and
  \<^verbatim>\<open>rw_len\<close>.
\<close>

definition get_relative_path :: "world \<Rightarrow> inode \<Rightarrow> dentry option \<Rightarrow> stop + int \<times> string" where
  "get_relative_path w inode dentry =
     (case get_full_path inode dentry of
        Inl s \<Rightarrow> Inl s
      | Inr (len, real_path) \<Rightarrow>
          if len < 0 then Inr (len, [])
          else (case strncmp_eq (read_only_branch w) real_path (ro_len w) of
                  None \<Rightarrow> Inl Undefined
                | Some True \<Rightarrow>
                    (case copy_after_branch real_path (ro_len w) len of
                       None \<Rightarrow> Inl Undefined
                     | Some copied \<Rightarrow> Inr (0, copied))
                | Some False \<Rightarrow>
                    (case strncmp_eq (read_write_branch w) real_path (rw_len w) of
                       None \<Rightarrow> Inl Undefined
                     | Some True \<Rightarrow>
                         (case copy_after_branch real_path (rw_len w) len of
                            None \<Rightarrow> Inl Undefined
                          | Some copied \<Rightarrow> Inr (0, copied))
                     | Some False \<Rightarrow> Inr (- ENODATA, []))))"

section \<open>The recursive mutex\<close>

text \<open>
  \<^verbatim>\<open>count\<close> is the atomic counter, a 32-bit integer that wraps around; \<^verbatim>\<open>owner\<close> is the
  thread recorded as owner (\<open>None\<close> for the null pointer); \<^verbatim>\<open>lock\<close> is the spin lock,
  with the thread that holds it (\<open>None\<close> when it is free). \<open>acquired\<close> counts how often
  the spin lock has been taken.
\<close>

record recursive_mutex =
  count :: "32 word"
  owner :: "nat option"
  lock :: "nat option"
  acquired :: nat

definition recursive_mutex_init :: "recursive_mutex \<Rightarrow> recursive_mutex" where
  "recursive_mutex_init m = m\<lparr>count := 0, lock := None, owner := None\<rparr>"

text \<open>
  \<^verbatim>\<open>spin_lock\<close> returns once the lock is free and taken. Its result is \<open>None\<close> when the
  lock is held: the caller spins until another thread releases it.
\<close>

definition spin_lock :: "nat \<Rightarrow> recursive_mutex \<Rightarrow> recursive_mutex option" where
  "spin_lock ti m =
     (if lock m = None then Some (m\<lparr>lock := Some ti, acquired := acquired m + 1\<rparr>) else None)"

definition spin_unlock :: "recursive_mutex \<Rightarrow> recursive_mutex" where
  "spin_unlock m = m\<lparr>lock := None\<rparr>"

text \<open>
  The two functions as one thread runs them when no other thread runs in between.
\<close>

definition recursive_mutex_lock :: "nat \<Rightarrow> recursive_mutex \<Rightarrow> recursive_mutex option" where
  "recursive_mutex_lock ti mutex =
     (let count' = count mutex + 1; m = mutex\<lparr>count := count'\<rparr>
      in if count' = 1 then map_option (\<lambda>m'. m'\<lparr>owner := Some ti\<rparr>) (spin_lock ti m)
         else if owner m \<noteq> Some ti then spin_lock ti m
         else Some m)"

definition recursive_mutex_unlock :: "recursive_mutex \<Rightarrow> recursive_mutex" where
  "recursive_mutex_unlock mutex =
     (let count' = count mutex - 1; m = mutex\<lparr>count := count'\<rparr>
      in if count' = 0 then spin_unlock (m\<lparr>owner := None\<rparr>) else m)"

text \<open>\<open>n\<close> calls in a row by one thread; \<open>None\<close> if one of them never returns.\<close>

fun lock_times :: "nat \<Rightarrow> nat \<Rightarrow> recursive_mutex \<Rightarrow> recursive_mutex option" where
  "lock_times 0 ti m = Some m"
| "lock_times (Suc n) ti m =
     (case recursive_mutex_lock ti m of None \<Rightarrow> None | Some m' \<Rightarrow> lock_times n ti m')"

fun unlock_times :: "nat \<Rightarrow> recursive_mutex \<Rightarrow> recursive_mutex" where
  "unlock_times 0 m = m"
| "unlock_times (Suc n) m = unlock_times n (recursive_mutex_unlock m)"

text \<open>
  The same two functions statement by statement, for threads that interleave. A thread
  is outside the two functions (\<open>Out\<close>) or in front of the statement at the given line of
  the source. At \<open>Out\<close> the step enters the named function and runs its first statement,
  the atomic update of the counter and the test of its result; elsewhere it runs the
  statement in front of the thread. A thread in front of \<^verbatim>\<open>spin_lock\<close> cannot step while
  the lock is held.
\<close>

datatype pc = Out | L29 | L31 | L38 | L39 | L50 | L51

datatype call = Lock | Unlock

fun thread_step :: "nat \<Rightarrow> call \<Rightarrow> pc \<Rightarrow> recursive_mutex \<Rightarrow> (pc \<times> recursive_mutex) option" where
  "thread_step ti Lock Out m =
     (let count' = count m + 1 in Some (if count' = 1 then L29 else L38, m\<lparr>count := count'\<rparr>))"
| "thread_step ti Unlock Out m =
     (let count' = count m - 1 in Some (if count' = 0 then L50 else Out, m\<lparr>count := count'\<rparr>))"
| "thread_step ti c L29 m = map_option (Pair L31) (spin_lock ti m)"
| "thread_step ti c L31 m = Some (Out, m\<lparr>owner := Some ti\<rparr>)"
| "thread_step ti c L38 m = Some (if owner m \<noteq> Some ti then L39 else Out, m)"
| "thread_step ti c L39 m = map_option (Pair Out) (spin_lock ti m)"
| "thread_step ti c L50 m = Some (L51, m\<lparr>owner := None\<rparr>)"
| "thread_step ti c L51 m = Some (Out, spin_unlock m)"

text \<open>
  The mutex and the position of every thread. A schedule names, step by step, the thread
  that runs and the function it enters if it is outside; running it gives \<open>None\<close> when
  the scheduled thread cannot step.
\<close>

record system =
  mutex :: recursive_mutex
  position :: "nat \<Rightarrow> pc"

fun run :: "(nat \<times> call) list \<Rightarrow> system \<Rightarrow> system option" where
  "run [] s = Some s"
| "run ((ti, c) # schedule) s =
     (case thread_step ti c (position s ti) (mutex s) of
        None \<Rightarrow> None
      | Some (pc', m') \<Rightarrow> run schedule (s\<lparr>mutex := m', position := (position s)(ti := pc')\<rparr>))"

definition free_mutex :: recursive_mutex where
  "free_mutex = \<lparr>count = 0, owner = None, lock = None, acquired = 0\<rparr>"

definition start :: system where
  "start = \<lparr>mutex = free_mutex, position = (\<lambda>ti. Out)\<rparr>"

section \<open>The specification's words, and examples\<close>

text \<open>
  The ancestor directories of a union path below the root, from the outermost to the
  parent of the last component: the text in front of every slash but the leading one.
\<close>

definition ancestor_directories :: "string \<Rightarrow> string list" where
  "ancestor_directories path =
     map (\<lambda>i. take i path) (filter (\<lambda>i. path ! i = CHR ''/'') [1..<length path])"

text \<open>
  Execute permission checked on each directory in turn, against the read-only branch,
  stopping at the first negative result.
\<close>

fun check_each :: "world \<Rightarrow> string list \<Rightarrow> event list \<times> int" where
  "check_each w [] = ([], 0)"
| "check_each w (d # ds) =
     (if snd (can_access w d (read_only_branch w @ d) X_OK) < 0
      then can_access w d (read_only_branch w @ d) X_OK
      else (fst (can_access w d (read_only_branch w @ d) X_OK) @ fst (check_each w ds),
            snd (check_each w ds)))"

text \<open>
  The mutex held by thread \<open>ti\<close> at depth \<open>k\<close>, the spin lock having been taken \<open>a\<close>
  times.
\<close>

definition held :: "nat \<Rightarrow> nat \<Rightarrow> nat \<Rightarrow> recursive_mutex" where
  "held ti k a = \<lparr>count = of_nat k, owner = Some ti, lock = Some ti, acquired = a\<rparr>"

text \<open>
  A mount with the branches \<^verbatim>\<open>/ro\<close> and \<^verbatim>\<open>/rw\<close>. \<^verbatim>\<open>/a/f\<close> is in the writable branch,
  \<^verbatim>\<open>/a/g\<close> and \<^verbatim>\<open>/a/h\<close> are in the read-only branch, \<^verbatim>\<open>/a/h\<close> with a whiteout; every
  directory has mode 0755 and belongs to the caller.
\<close>

definition example_stat :: kstat where
  "example_stat = \<lparr>st_mode = 493, st_uid = 1000, st_gid = 100\<rparr>"

definition example_world :: world where
  "example_world =
     \<lparr>read_only_branch = ''/ro'', read_write_branch = ''/rw'',
      vfs_lstat = (\<lambda>p. if p = ''/rw/a/f'' \<or> p = ''/ro/a/g'' \<or> p = ''/ro/a/h'' then 0
                       else - ENOENT),
      get_file_attr_worker = (\<lambda>p r. (0, example_stat)),
      sys_geteuid = 1000, sys_getegid = 100,
      find_whiteout = (\<lambda>p. if p = ''/a/h'' then 0 else - ENOENT),
      create_copyup = (\<lambda>p t. (0, ''/rw'' @ p))\<rparr>"

text \<open>
  The branch form of a path that \<^verbatim>\<open>find_file\<close> builds first: the read-only one under
  \<^verbatim>\<open>MUST_READ_ONLY\<close>, the writable one otherwise.
\<close>

definition first_translation :: "world \<Rightarrow> string \<Rightarrow> flag set \<Rightarrow> string" where
  "first_translation w path flags =
     (if is_flag_set flags MUST_READ_ONLY then read_only_branch w else read_write_branch w) @ path"

text \<open>
  A mount whose read-only root is 3001 characters long and whose branches are empty,
  a path of 1501 characters and one of 4101 characters.
\<close>

definition long_world :: world where
  "long_world =
     \<lparr>read_only_branch = CHR ''/'' # replicate 3000 CHR ''r'', read_write_branch = ''/rw'',
      vfs_lstat = (\<lambda>p. - ENOENT),
      get_file_attr_worker = (\<lambda>p r. (0, example_stat)),
      sys_geteuid = 1000, sys_getegid = 100,
      find_whiteout = (\<lambda>p. - ENOENT),
      create_copyup = (\<lambda>p t. (0, ''/rw'' @ p))\<rparr>"

definition long_path :: string where
  "long_path = CHR ''/'' # replicate 1500 CHR ''f''"

definition longer_path :: string where
  "longer_path = CHR ''/'' # replicate 4100 CHR ''f''"

text \<open>
  The example mount once more, with the root of the union present in the writable
  branch.
\<close>

definition rooted_world :: world where
  "rooted_world =
     example_world\<lparr>vfs_lstat := (\<lambda>p. if p = ''/rw/'' then 0 else vfs_lstat example_world p)\<rparr>"

text \<open>
  The entry \<^verbatim>\<open>foo\<close> in the directory \<^verbatim>\<open>ro\<close> under the root of the file system, that is
  the union path \<^verbatim>\<open>/foo\<close> in the read-only branch; an inode without links, as the
  assertion of \<^verbatim>\<open>get_full_path\<close> wants it, and one with a link, as an entry in a
  directory has it.
\<close>

definition foo_entry :: dentry where
  "foo_entry = [''foo'', ''ro'']"

definition unlinked_inode :: inode where
  "unlinked_inode = \<lparr>i_nlink = 0, i_dentry = Some foo_entry\<rparr>"

definition linked_inode :: inode where
  "linked_inode = \<lparr>i_nlink = 1, i_dentry = Some foo_entry\<rparr>"

text \<open>
  A call run to its end by the step function alone, the thread never leaving the
  processor: at most three statements.
\<close>

definition alone :: "nat \<Rightarrow> call \<Rightarrow> recursive_mutex \<Rightarrow> recursive_mutex option" where
  "alone ti c m =
     (case thread_step ti c Out m of
        None \<Rightarrow> None
      | Some (pc1, m1) \<Rightarrow>
          if pc1 = Out then Some m1
          else (case thread_step ti c pc1 m1 of
                  None \<Rightarrow> None
                | Some (pc2, m2) \<Rightarrow>
                    if pc2 = Out then Some m2 else map_option snd (thread_step ti c pc2 m2)))"

section \<open>Permission bits\<close>

lemma seven_mask: "(7::32 word) = mask 3"
  by (simp add: mask_eq_exp_minus_1)

lemma request_low_bits:
  fixes mode :: "32 word"
  assumes "mode AND 7 = mode" and "bit mode n"
  shows "n < 3"
proof -
  have "bit (mode AND mask 3) n" using assms by (simp add: seven_mask)
  then show ?thesis by (simp add: bit_and_iff bit_mask_iff)
qed

text \<open>
  A request within the three permission bits, shifted to a triplet, is contained in the
  mode exactly when the request is contained in that triplet of the mode.
\<close>

lemma shifted_request_subset:
  fixes mode M :: "32 word"
  assumes m: "mode AND 7 = mode" and k: "k \<le> 6"
  shows "(push_bit k mode AND M = push_bit k mode) = (mode AND (drop_bit k M AND 7) = mode)"
proof
  assume a: "push_bit k mode AND M = push_bit k mode"
  show "mode AND (drop_bit k M AND 7) = mode"
  proof (rule bit_eqI)
    fix n
    show "bit (mode AND (drop_bit k M AND 7)) n = bit mode n"
    proof (cases "bit mode n")
      case False
      then show ?thesis by (simp add: bit_and_iff)
    next
      case True
      then have n: "n < 3" using m request_low_bits by blast
      have "bit (push_bit k mode) (k + n)" using True n k by (simp add: bit_push_bit_iff)
      then have "bit (push_bit k mode AND M) (k + n)" using a by simp
      then have "bit M (k + n)" by (simp add: bit_and_iff)
      then show ?thesis
        using True n by (simp add: bit_and_iff bit_drop_bit_eq seven_mask bit_mask_iff)
    qed
  qed
next
  assume a: "mode AND (drop_bit k M AND 7) = mode"
  show "push_bit k mode AND M = push_bit k mode"
  proof (rule bit_eqI)
    fix n
    show "bit (push_bit k mode AND M) n = bit (push_bit k mode) n"
    proof (cases "bit (push_bit k mode) n")
      case False
      then show ?thesis by (simp add: bit_and_iff)
    next
      case True
      then have kn: "k \<le> n" and b: "bit mode (n - k)" by (simp_all add: bit_push_bit_iff)
      from b have "bit (mode AND (drop_bit k M AND 7)) (n - k)" using a by simp
      then have "bit M (k + (n - k))" by (simp add: bit_and_iff bit_drop_bit_eq)
      then have "bit M n" using kn by simp
      then show ?thesis using True by (simp add: bit_and_iff)
    qed
  qed
qed

lemma and_one_bit0: "((mode::32 word) AND 1 \<noteq> 0) = bit mode 0"
  by (simp add: and_one_eq bit_0 mod_2_eq_odd)

lemma single_bit_test:
  fixes M :: "32 word"
  assumes "k < 32"
  shows "(2 ^ k AND M \<noteq> 0) = bit M k"
proof -
  have "2 ^ k AND M = (if bit M k then 2 ^ k else 0)"
    by (rule bit_eqI) (auto simp: bit_and_iff bit_exp_iff)
  moreover have "(2::32 word) ^ k \<noteq> 0"
    using assms by (simp add: exp_eq_zero_iff)
  ultimately show ?thesis by simp
qed

lemma execute_bit_tests:
  fixes M :: "32 word"
  shows "(1 AND M \<noteq> 0) = bit M 0" "(8 AND M \<noteq> 0) = bit M 3" "(64 AND M \<noteq> 0) = bit M 6"
  using single_bit_test [of 0 M] single_bit_test [of 3 M] single_bit_test [of 6 M]
  by simp_all

lemma shifted_execute_denied:
  fixes mode M :: "32 word"
  assumes "bit mode 0" and "\<not> bit M k" and "k < 32"
  shows "push_bit k mode AND M \<noteq> push_bit k mode"
proof
  assume "push_bit k mode AND M = push_bit k mode"
  then have "bit (push_bit k mode AND M) k = bit (push_bit k mode) k" by simp
  then show False using assms by (simp add: bit_and_iff bit_push_bit_iff)
qed

lemma triplet_bit0: "bit (triplet stbuf k) 0 = bit (ucast (st_mode stbuf) :: 32 word) (3 * k)"
  by (simp add: triplet_def bit_and_iff bit_drop_bit_eq seven_mask bit_mask_iff)

lemma match_attributes_low:
  assumes "mode AND 7 = mode"
  shows "match_attributes w stbuf mode =
         (if mode AND selected_triplet w stbuf = mode then 0 else - EACCES)"
  using shifted_request_subset [OF assms, of 6 "ucast (st_mode stbuf)"]
        shifted_request_subset [OF assms, of 3 "ucast (st_mode stbuf)"]
        shifted_request_subset [OF assms, of 0 "ucast (st_mode stbuf)"]
  by (simp add: match_attributes_def selected_triplet_def triplet_def RIGHTS_MASK_def Let_def)

text \<open>
  The superuser asking for execute on an entry without any execute bit falls through to
  the comparison of lines 63 to 76, which refuses: the shifted request holds an execute
  bit that the mode lacks.
\<close>

lemma match_attributes_no_execute:
  assumes "bit mode 0" and "\<not> some_execute_bit stbuf"
  shows "match_attributes w stbuf mode = - EACCES"
proof -
  let ?M = "ucast (st_mode stbuf) :: 32 word"
  from assms(2) have nb: "\<not> bit ?M 6" "\<not> bit ?M 3" "\<not> bit ?M 0"
    by (simp_all add: some_execute_bit_def triplet_bit0)
  have "push_bit 6 mode AND ?M \<noteq> push_bit 6 mode"
       "push_bit 3 mode AND ?M \<noteq> push_bit 3 mode"
       "push_bit 0 mode AND ?M \<noteq> push_bit 0 mode"
    using shifted_execute_denied [OF assms(1), of ?M 6]
          shifted_execute_denied [OF assms(1), of ?M 3]
          shifted_execute_denied [OF assms(1), of ?M 0] nb
    by simp_all
  then show ?thesis
    by (simp add: match_attributes_def RIGHTS_MASK_def Let_def)
qed

lemma some_execute_bit_tests:
  "some_execute_bit stbuf =
     (X_OK AND ucast (st_mode stbuf) \<noteq> 0
      \<or> push_bit RIGHTS_MASK X_OK AND ucast (st_mode stbuf) \<noteq> 0
      \<or> push_bit (RIGHTS_MASK * 2) X_OK AND ucast (st_mode stbuf) \<noteq> 0)"
  by (auto simp: some_execute_bit_def triplet_bit0 X_OK_def RIGHTS_MASK_def execute_bit_tests)

text \<open>
  C4. When the stat of the entry succeeds, \<^verbatim>\<open>can_access\<close> makes that one stat call and
  grants the request (returns 0) exactly when the permission rule grants it, and returns
  the permission error otherwise. The rule, \<open>access_granted\<close>: for the superuser, a
  request with the execute bit is granted if and only if one of the three triplets of
  the mode has its execute bit, and any other request is granted; for any other caller,
  the owner triplet applies if the caller is the owner, else the group triplet if the
  caller's group is the entry's, else the triplet of the others, and the request is
  granted if and only if all its bits are in that triplet. A request is a combination of
  the read, write and execute bits; for the superuser the result holds for every value
  of the request word.
\<close>

theorem can_access_rule:
  assumes stat: "get_file_attr_worker w path real_path = (0, stbuf)"
    and req: "sys_geteuid w = 0 \<or> mode AND 7 = mode"
  shows "can_access w path real_path mode =
           ([Call_get_file_attr_worker path real_path],
            if access_granted w stbuf mode then 0 else - EACCES)"
proof (cases "sys_geteuid w = 0")
  case root: True
  show ?thesis
  proof (cases "bit mode 0")
    case False
    with root stat show ?thesis
      by (simp add: can_access_def access_granted_def X_OK_def and_one_bit0)
  next
    case x: True
    show ?thesis
    proof (cases "some_execute_bit stbuf")
      case True
      with root x stat show ?thesis
        using some_execute_bit_tests [of stbuf]
        by (simp add: can_access_def access_granted_def
              and_one_bit0 [unfolded X_OK_def [symmetric]])
    next
      case False
      with root x stat show ?thesis
        using some_execute_bit_tests [of stbuf] match_attributes_no_execute [OF x False, of w]
        by (simp add: can_access_def access_granted_def
              and_one_bit0 [unfolded X_OK_def [symmetric]] EACCES_def)
    qed
  qed
next
  case False
  with req have "mode AND 7 = mode" by simp
  with False stat show ?thesis
    by (simp add: can_access_def access_granted_def match_attributes_low)
qed

theorem can_access_rule_witness:
  "get_file_attr_worker example_world ''/a'' ''/ro/a'' = (0, example_stat)
   \<and> (sys_geteuid example_world = 0 \<or> (6::32 word) AND 7 = 6)
   \<and> access_granted example_world example_stat 6
   \<and> can_access example_world ''/a'' ''/ro/a'' 6 =
       ([Call_get_file_attr_worker ''/a'' ''/ro/a''], 0)"
proof -
  have s: "get_file_attr_worker example_world ''/a'' ''/ro/a'' = (0, example_stat)"
    by (simp add: example_world_def)
  have r: "sys_geteuid example_world = 0 \<or> (6::32 word) AND 7 = 6"
    by simp
  have g: "access_granted example_world example_stat 6"
    by (simp add: access_granted_def selected_triplet_def triplet_def example_world_def
          example_stat_def)
  show ?thesis using s r g can_access_rule [OF s r] by simp
qed

section \<open>Traversal\<close>

lemma find_upt_None: "List.find P [s..<n] = None \<Longrightarrow> filter P [s..<n] = []"
  by (auto simp: find_None_iff filter_empty_conv)

lemma find_upt_Some:
  assumes "List.find P [s..<n] = Some d"
  shows "s \<le> d \<and> d < n \<and> P d \<and> filter P [s..<n] = d # filter P [Suc d..<n]"
proof -
  from assms obtain i where i: "i < n - s" "P (s + i)" "d = s + i" "\<forall>j<i. \<not> P (s + j)"
    by (auto simp: find_Some_iff)
  have sd: "s \<le> d" "d < n" using i by auto
  have split: "[s..<n] = [s..<d] @ d # [Suc d..<n]"
    using sd by (metis le_Suc_ex upt_add_eq_append upt_conv_Cons less_imp_le_nat)
  have "filter P [s..<d] = []"
  proof -
    have "\<forall>x\<in>set [s..<d]. \<not> P x"
    proof
      fix x assume "x \<in> set [s..<d]"
      then have "s \<le> x" "x < d" by auto
      then have "x - s < i" "x = s + (x - s)" using i(3) by auto
      then show "\<not> P x" using i(4) by metis
    qed
    then show ?thesis by (simp add: filter_empty_conv)
  qed
  then show ?thesis using sd i split by simp
qed

lemma take_take_drop: "m \<le> d \<Longrightarrow> take m xs @ take (d - m) (drop m xs) = take d xs"
  by (metis le_add_diff_inverse take_add)

text \<open>
  The loop invariant: with the buffers holding the path up to \<^verbatim>\<open>old_directory\<close>, the
  rest of the loop checks the directories in front of the slashes still to come.
\<close>

lemma traverse_loop_checks:
  assumes fit: "length (read_only_branch w @ path) < PATH_MAX"
  shows "old \<le> s \<Longrightarrow>
         traverse_loop w path (take old path) (read_only_branch w @ take old path) old
              (strchr_from path s CHR ''/'') =
         Some (check_each w (map (\<lambda>i. take i path)
                 (filter (\<lambda>i. path ! i = CHR ''/'') [s..<length path])))"
proof (induction "length path - s" arbitrary: old s rule: less_induct)
  case less
  show ?case
  proof (cases "strchr_from path s CHR ''/''")
    case None
    then show ?thesis
      using find_upt_None [of "\<lambda>i. path ! i = CHR ''/''" s "length path"]
      by (simp add: strchr_from_def traverse_loop.simps)
  next
    case (Some d)
    then have d: "s \<le> d" "d < length path"
      and fl: "filter (\<lambda>i. path ! i = CHR ''/'') [s..<length path] =
               d # filter (\<lambda>i. path ! i = CHR ''/'') [Suc d..<length path]"
      using find_upt_Some [of "\<lambda>i. path ! i = CHR ''/''" s "length path" d]
      by (simp_all add: strchr_from_def)
    have od: "old \<le> d" using less.prems d by simp
    have sp: "take old path @ take (d - old) (drop old path) = take d path"
      using od by (rule take_take_drop)
    have room: "\<not> (PATH_MAX \<le> length (take d path)
                  \<or> PATH_MAX \<le> length (read_only_branch w @ take d path))"
      using fit d by simp
    have IH: "traverse_loop w path (take d path) (read_only_branch w @ take d path) d
                (strchr_from path (d + 1) CHR ''/'') =
              Some (check_each w (map (\<lambda>i. take i path)
                 (filter (\<lambda>i. path ! i = CHR ''/'') [d + 1..<length path])))"
      using less.hyps [of "d + 1" d] d by simp
    show ?thesis
      apply (subst traverse_loop.simps)
      using room IH
      apply (simp add: Some sp fl Let_def case_prod_beta)
      done
  qed
qed

lemma strrchr_leading_only:
  assumes "strrchr path c = Some 0"
  shows "filter (\<lambda>i. path ! i = c) [1..<length path] = []"
proof -
  have "\<forall>i\<in>set [1..<length path]. path ! i \<noteq> c"
  proof
    fix i assume "i \<in> set [1..<length path]"
    then have i: "1 \<le> i" "i < length path" by auto
    from assms obtain k where k: "k < length path" "rev [0..<length path] ! k = 0"
        "\<forall>j<k. path ! (rev [0..<length path] ! j) \<noteq> c"
      by (auto simp: strrchr_def find_Some_iff)
    have "k = length path - 1" using k(1,2) by (simp add: rev_nth)
    then have "length path - 1 - i < k" using i by simp
    then have "path ! (rev [0..<length path] ! (length path - 1 - i)) \<noteq> c"
      using k(3) by blast
    then show "path ! i \<noteq> c" using i by (simp add: rev_nth)
  qed
  then show ?thesis by (simp add: filter_empty_conv)
qed

text \<open>A path whose only slash is the leading one has no directory to check.\<close>

lemma ancestor_directories_leading_only:
  "strrchr path CHR ''/'' = Some 0 \<Longrightarrow> ancestor_directories path = []"
  using strrchr_leading_only [of path "CHR ''/''"] by (simp add: ancestor_directories_def)

text \<open>
  C5. For a union path (it begins with a slash) that fits the path buffer together with
  the read-only root, \<^verbatim>\<open>can_traverse\<close> returns what \<open>check_each\<close> returns on the ancestor
  directories of the path: one \<^verbatim>\<open>can_access\<close> call with the execute request for each
  directory below the root, outermost first and down to the parent of the last
  component, each on the directory's path in the read-only branch; the walk stops at the
  first negative result and returns it, and returns 0 when every check has passed. The
  root itself is never checked, so a path with no slash after the leading one (the root,
  or a direct child of it) gives no call at all and the result 0.
\<close>

theorem can_traverse_checks:
  assumes "path \<noteq> []" and "hd path = CHR ''/''"
    and "length (read_only_branch w @ path) < PATH_MAX"
  shows "can_traverse w path = Some (check_each w (ancestor_directories path))"
proof -
  have t1: "take (Suc 0) path = ''/''" using assms(1,2) by (cases path) simp_all
  have ro: "\<not> length (read_only_branch w @ ''/'') > PATH_MAX"
           "take (PATH_MAX - 1) (read_only_branch w @ ''/'') = read_only_branch w @ ''/''"
    using assms(1,3) by (cases path; simp)+
  have loop: "traverse_loop w path ''/'' (read_only_branch w @ ''/'') 1
                (strchr_from path 1 CHR ''/'') =
              Some (check_each w (ancestor_directories path))"
    using traverse_loop_checks [OF assms(3), of 1 1] by (simp add: t1 ancestor_directories_def)
  show ?thesis
  proof (cases "strrchr path CHR ''/'' = Some 0")
    case False
    then show ?thesis using assms(1) ro loop
      by (simp add: can_traverse_def snprintf_def PATH_MAX_def)
  next
    case True
    then show ?thesis using assms(1) ro
      by (simp add: can_traverse_def snprintf_def ancestor_directories_leading_only)
  qed
qed

theorem can_traverse_checks_witness:
  "''/a/b/c'' \<noteq> [] \<and> hd ''/a/b/c'' = CHR ''/''
   \<and> length (read_only_branch example_world @ ''/a/b/c'') < PATH_MAX
   \<and> ancestor_directories ''/a/b/c'' = [''/a'', ''/a/b'']
   \<and> can_traverse example_world ''/a/b/c'' =
       Some ([Call_get_file_attr_worker ''/a'' ''/ro/a'',
              Call_get_file_attr_worker ''/a/b'' ''/ro/a/b''], 0)"
proof -
  have n: "''/a/b/c'' \<noteq> []" and h: "hd ''/a/b/c'' = CHR ''/''" by simp_all
  have l: "length (read_only_branch example_world @ ''/a/b/c'') < PATH_MAX"
    by (simp add: example_world_def PATH_MAX_def)
  have a: "ancestor_directories ''/a/b/c'' = [''/a'', ''/a/b'']"
    by (simp add: ancestor_directories_def upt_rec)
  have c: "check_each example_world [''/a'', ''/a/b''] =
           ([Call_get_file_attr_worker ''/a'' ''/ro/a'',
             Call_get_file_attr_worker ''/a/b'' ''/ro/a/b''], 0)"
    by (simp add: can_access_def example_world_def example_stat_def X_OK_def
          match_attributes_def RIGHTS_MASK_def)
  show ?thesis using n h l a c can_traverse_checks [OF n h l] by simp
qed

section \<open>Resolution\<close>

lemma after_Some [simp]: "after calls (Some (calls', x)) = Some (calls @ calls', x)"
  by (simp add: after_def)

lemma after_None [simp]: "after calls None = None"
  by (simp add: after_def)

lemma make_rw_path_fits:
  "length (read_write_branch w @ path) < PATH_MAX \<Longrightarrow>
   make_rw_path w path = (length (read_write_branch w @ path), read_write_branch w @ path)"
  by (simp add: make_rw_path_def snprintf_def)

lemma make_ro_path_fits:
  "length (read_only_branch w @ path) < PATH_MAX \<Longrightarrow>
   make_ro_path w path = (length (read_only_branch w @ path), read_only_branch w @ path)"
  by (simp add: make_ro_path_def snprintf_def)

lemma example_traverse_f:
  "can_traverse example_world ''/a/f'' = Some ([Call_get_file_attr_worker ''/a'' ''/ro/a''], 0)"
  by (simp add: can_traverse_def snprintf_def example_world_def PATH_MAX_def strrchr_def
        strchr_from_def traverse_loop.simps can_access_def example_stat_def X_OK_def
        match_attributes_def RIGHTS_MASK_def upt_rec)

lemma example_traverse_h:
  "can_traverse example_world ''/a/h'' = Some ([Call_get_file_attr_worker ''/a'' ''/ro/a''], 0)"
  by (simp add: can_traverse_def snprintf_def example_world_def PATH_MAX_def strrchr_def
        strchr_from_def traverse_loop.simps can_access_def example_stat_def X_OK_def
        match_attributes_def RIGHTS_MASK_def upt_rec)

text \<open>
  C1. When \<^verbatim>\<open>MUST_READ_ONLY\<close> is not among the flags, the writable form of the path fits
  the buffer, its stat succeeds and \<^verbatim>\<open>can_traverse\<close> succeeds on the path, \<^verbatim>\<open>find_file\<close>
  returns \<^verbatim>\<open>READ_WRITE\<close> with the writable branch path in \<^verbatim>\<open>real_path\<close>. Nothing is
  assumed about the other flags, the read-only branch or the whiteouts: besides the
  calls of the traversal check, the stat of the writable path is the only call made.
\<close>

theorem find_file_read_write:
  assumes "\<not> is_flag_set flags MUST_READ_ONLY"
    and "length (read_write_branch w @ path) < PATH_MAX"
    and "0 \<le> vfs_lstat w (read_write_branch w @ path)"
    and "can_traverse w path = Some (calls, 0)"
  shows "find_file w path real_path flags =
           Some (Call_vfs_lstat (read_write_branch w @ path) # calls, Inr READ_WRITE,
                 read_write_branch w @ path)"
  using assms
  by (simp add: find_file_def make_rw_path_fits check_traverse_def)

theorem find_file_read_write_witness:
  "\<not> is_flag_set {CREATE_COPYUP} MUST_READ_ONLY
   \<and> length (read_write_branch example_world @ ''/a/f'') < PATH_MAX
   \<and> 0 \<le> vfs_lstat example_world (read_write_branch example_world @ ''/a/f'')
   \<and> can_traverse example_world ''/a/f'' = Some ([Call_get_file_attr_worker ''/a'' ''/ro/a''], 0)
   \<and> find_file example_world ''/a/f'' [] {CREATE_COPYUP} =
       Some ([Call_vfs_lstat ''/rw/a/f'', Call_get_file_attr_worker ''/a'' ''/ro/a''],
             Inr READ_WRITE, ''/rw/a/f'')"
proof -
  have f: "\<not> is_flag_set {CREATE_COPYUP} MUST_READ_ONLY" by (simp add: is_flag_set_def)
  have l: "length (read_write_branch example_world @ ''/a/f'') < PATH_MAX"
    by (simp add: example_world_def PATH_MAX_def)
  have s: "0 \<le> vfs_lstat example_world (read_write_branch example_world @ ''/a/f'')"
    by (simp add: example_world_def)
  have t: "can_traverse example_world ''/a/f'' =
           Some ([Call_get_file_attr_worker ''/a'' ''/ro/a''], 0)"
    by (rule example_traverse_f)
  show ?thesis using f l s t find_file_read_write [OF f l s t, of "[]"]
    by (simp add: example_world_def)
qed

text \<open>
  C3. Without \<^verbatim>\<open>IGNORE_WHITEOUT\<close> and without \<^verbatim>\<open>CREATE_COPYUP\<close>, for a path that is absent
  from the writable branch (its stat there returns \<open>- ENOENT\<close>), present in the read-only
  branch and marked by a whiteout (\<^verbatim>\<open>find_whiteout\<close> returns 0), \<^verbatim>\<open>find_file\<close> returns
  \<open>- ENOENT\<close>. The calls it makes are the stats and the whiteout lookup only: the whiteout
  is found before any traversal check, and no \<^verbatim>\<open>READ_ONLY\<close> result is produced. Under
  \<^verbatim>\<open>MUST_READ_WRITE\<close> the same error is already returned after the stat of the writable
  path.
\<close>

theorem find_file_whiteout_not_found:
  assumes "\<not> is_flag_set flags IGNORE_WHITEOUT" and "\<not> is_flag_set flags CREATE_COPYUP"
    and "length (read_write_branch w @ path) < PATH_MAX"
    and "vfs_lstat w (read_write_branch w @ path) = - ENOENT"
    and "length (read_only_branch w @ path) < PATH_MAX"
    and "0 \<le> vfs_lstat w (read_only_branch w @ path)"
    and "find_whiteout w path = 0"
  shows "find_file w path real_path flags =
           Some (if is_flag_set flags MUST_READ_ONLY
                 then ([Call_vfs_lstat (read_only_branch w @ path), Call_find_whiteout path],
                       Inl (- ENOENT), read_only_branch w @ path)
                 else if is_flag_set flags MUST_READ_WRITE
                 then ([Call_vfs_lstat (read_write_branch w @ path)],
                       Inl (- ENOENT), read_write_branch w @ path)
                 else ([Call_vfs_lstat (read_write_branch w @ path),
                        Call_vfs_lstat (read_only_branch w @ path), Call_find_whiteout path],
                       Inl (- ENOENT), read_only_branch w @ path))"
  using assms
  by (simp add: find_file_def find_file_ro_def make_rw_path_fits make_ro_path_fits ENOENT_def)

theorem find_file_whiteout_not_found_witness:
  "\<not> is_flag_set {} IGNORE_WHITEOUT \<and> \<not> is_flag_set {} CREATE_COPYUP
   \<and> length (read_write_branch example_world @ ''/a/h'') < PATH_MAX
   \<and> vfs_lstat example_world (read_write_branch example_world @ ''/a/h'') = - ENOENT
   \<and> length (read_only_branch example_world @ ''/a/h'') < PATH_MAX
   \<and> 0 \<le> vfs_lstat example_world (read_only_branch example_world @ ''/a/h'')
   \<and> find_whiteout example_world ''/a/h'' = 0
   \<and> find_file example_world ''/a/h'' [] {} =
       Some ([Call_vfs_lstat ''/rw/a/h'', Call_vfs_lstat ''/ro/a/h'', Call_find_whiteout ''/a/h''],
             Inl (- ENOENT), ''/ro/a/h'')"
proof -
  have a: "\<not> is_flag_set {} IGNORE_WHITEOUT" and b: "\<not> is_flag_set {} CREATE_COPYUP"
    by (simp_all add: is_flag_set_def)
  have c: "length (read_write_branch example_world @ ''/a/h'') < PATH_MAX"
    and e: "length (read_only_branch example_world @ ''/a/h'') < PATH_MAX"
    by (simp_all add: example_world_def PATH_MAX_def)
  have d: "vfs_lstat example_world (read_write_branch example_world @ ''/a/h'') = - ENOENT"
    and f: "0 \<le> vfs_lstat example_world (read_only_branch example_world @ ''/a/h'')"
    and g: "find_whiteout example_world ''/a/h'' = 0"
    by (simp_all add: example_world_def)
  show ?thesis
    using a b c d e f g find_file_whiteout_not_found [OF a b c d e f g, of "[]"]
    by (simp add: example_world_def is_flag_set_def)
qed

lemma copyup_without_whiteout:
  "find_file example_world ''/a/g'' [] {CREATE_COPYUP} =
     Some ([Call_vfs_lstat ''/rw/a/g'', Call_vfs_lstat ''/ro/a/g'', Call_find_whiteout ''/a/g''],
           Inl (- ENOENT), ''/rw/a/g'')"
  by (simp add: find_file_def find_file_copyup_def make_rw_path_def make_ro_path_def
        snprintf_def PATH_MAX_def is_flag_set_def example_world_def ENOENT_def)

text \<open>
  C2. The copy-up branch treats the result of \<^verbatim>\<open>find_whiteout\<close> the other way round than
  the read-only branch does. For \<^verbatim>\<open>/a/h\<close>, absent from the writable branch, present in the
  read-only branch and marked by a whiteout (result 0, the value that makes the read-only
  branch answer \<open>- ENOENT\<close>), \<^verbatim>\<open>find_file\<close> with \<^verbatim>\<open>CREATE_COPYUP\<close> goes on to the traversal
  check, calls \<^verbatim>\<open>create_copyup\<close> and returns \<^verbatim>\<open>READ_WRITE_COPYUP\<close>.
\<close>

theorem copyup_after_whiteout_hit:
  "vfs_lstat example_world ''/rw/a/h'' < 0 \<and> 0 \<le> vfs_lstat example_world ''/ro/a/h''
   \<and> find_whiteout example_world ''/a/h'' = 0
   \<and> find_file example_world ''/a/h'' [] {CREATE_COPYUP} =
       Some ([Call_vfs_lstat ''/rw/a/h'', Call_vfs_lstat ''/ro/a/h'', Call_find_whiteout ''/a/h'',
              Call_get_file_attr_worker ''/a'' ''/ro/a'', Call_create_copyup ''/a/h'' ''/ro/a/h''],
             Inr READ_WRITE_COPYUP, ''/rw/a/h'')"
proof -
  have "find_file example_world ''/a/h'' [] {CREATE_COPYUP} =
       Some ([Call_vfs_lstat ''/rw/a/h'', Call_vfs_lstat ''/ro/a/h'', Call_find_whiteout ''/a/h'',
              Call_get_file_attr_worker ''/a'' ''/ro/a'', Call_create_copyup ''/a/h'' ''/ro/a/h''],
             Inr READ_WRITE_COPYUP, ''/rw/a/h'')"
    using example_traverse_h
    by (simp add: find_file_def find_file_copyup_def make_rw_path_def make_ro_path_def
          snprintf_def PATH_MAX_def is_flag_set_def check_traverse_def example_world_def ENOENT_def)
  then show ?thesis by (simp add: example_world_def ENOENT_def)
qed

lemma long_world_lengths:
  "length (read_write_branch long_world @ long_path) = 1504"
  "length (read_only_branch long_world @ long_path) = 4502"
  "length (read_write_branch long_world @ longer_path) = 4104"
  by (simp_all add: long_world_def long_path_def longer_path_def)

lemma long_world_fields:
  "read_write_branch long_world = ''/rw''" "vfs_lstat long_world p = - ENOENT"
  by (simp_all add: long_world_def)

text \<open>
  C8, as amended. When the branch form that \<^verbatim>\<open>find_file\<close> builds first is longer than
  \<open>PATH_MAX\<close>, \<^verbatim>\<open>find_file\<close> returns \<open>- ENAMETOOLONG\<close> and has made no call at all: no
  stat, no whiteout lookup, no traversal check and no copy-up, so the cut text in the
  buffer is never used. When the writable form fits and only the read-only form is too
  long, \<^verbatim>\<open>find_file\<close> returns \<open>- ENAMETOOLONG\<close> as soon as it builds the read-only form:
  after the stat of the writable path has failed, which is then the only call made.
\<close>

theorem find_file_too_long:
  "(PATH_MAX < length (first_translation w path flags) \<longrightarrow>
      map_option (\<lambda>(calls, r, p). (calls, r)) (find_file w path real_path flags) =
        Some ([], Inl (- ENAMETOOLONG)))
   \<and> (\<not> is_flag_set flags MUST_READ_ONLY \<and> \<not> is_flag_set flags MUST_READ_WRITE
        \<and> length (read_write_branch w @ path) < PATH_MAX
        \<and> vfs_lstat w (read_write_branch w @ path) < 0
        \<and> PATH_MAX < length (read_only_branch w @ path) \<longrightarrow>
      map_option (\<lambda>(calls, r, p). (calls, r)) (find_file w path real_path flags) =
        Some ([Call_vfs_lstat (read_write_branch w @ path)], Inl (- ENAMETOOLONG)))"
proof (intro conjI impI)
  assume long: "PATH_MAX < length (first_translation w path flags)"
  show "map_option (\<lambda>(calls, r, p). (calls, r)) (find_file w path real_path flags) =
          Some ([], Inl (- ENAMETOOLONG))"
  proof (cases "is_flag_set flags MUST_READ_ONLY")
    case False
    with long have "PATH_MAX < fst (make_rw_path w path)"
      by (simp add: first_translation_def make_rw_path_def snprintf_def)
    with False show ?thesis
      by (simp add: find_file_def case_prod_beta)
  next
    case True
    with long have ro: "PATH_MAX < fst (make_ro_path w path)"
      by (simp add: first_translation_def make_ro_path_def snprintf_def)
    show ?thesis
    proof (cases "is_flag_set flags CREATE_COPYUP")
      case True
      with \<open>is_flag_set flags MUST_READ_ONLY\<close> ro show ?thesis
        by (simp add: find_file_def find_file_copyup_def case_prod_beta)
    next
      case False
      with \<open>is_flag_set flags MUST_READ_ONLY\<close> ro show ?thesis
        by (simp add: find_file_def find_file_ro_def case_prod_beta)
    qed
  qed
next
  assume a: "\<not> is_flag_set flags MUST_READ_ONLY \<and> \<not> is_flag_set flags MUST_READ_WRITE
        \<and> length (read_write_branch w @ path) < PATH_MAX
        \<and> vfs_lstat w (read_write_branch w @ path) < 0
        \<and> PATH_MAX < length (read_only_branch w @ path)"
  then have ro: "PATH_MAX < fst (make_ro_path w path)"
    by (simp add: make_ro_path_def snprintf_def)
  show "map_option (\<lambda>(calls, r, p). (calls, r)) (find_file w path real_path flags) =
          Some ([Call_vfs_lstat (read_write_branch w @ path)], Inl (- ENAMETOOLONG))"
  proof (cases "is_flag_set flags CREATE_COPYUP")
    case True
    with a ro show ?thesis
      by (simp add: find_file_def find_file_copyup_def make_rw_path_fits case_prod_beta)
  next
    case False
    with a ro show ?thesis
      by (simp add: find_file_def find_file_ro_def make_rw_path_fits case_prod_beta)
  qed
qed

theorem find_file_too_long_witness:
  "PATH_MAX < length (first_translation long_world longer_path {})
   \<and> map_option (\<lambda>(calls, r, p). (calls, r)) (find_file long_world longer_path [] {}) =
       Some ([], Inl (- ENAMETOOLONG))
   \<and> \<not> is_flag_set {} MUST_READ_ONLY \<and> \<not> is_flag_set {} MUST_READ_WRITE
   \<and> length (read_write_branch long_world @ long_path) < PATH_MAX
   \<and> vfs_lstat long_world (read_write_branch long_world @ long_path) < 0
   \<and> PATH_MAX < length (read_only_branch long_world @ long_path)
   \<and> map_option (\<lambda>(calls, r, p). (calls, r)) (find_file long_world long_path [] {}) =
       Some ([Call_vfs_lstat (read_write_branch long_world @ long_path)], Inl (- ENAMETOOLONG))"
proof -
  have a: "PATH_MAX < length (first_translation long_world longer_path {})"
    using long_world_lengths(3)
    by (simp add: first_translation_def PATH_MAX_def is_flag_set_def)
  have b: "\<not> is_flag_set {} MUST_READ_ONLY \<and> \<not> is_flag_set {} MUST_READ_WRITE
        \<and> length (read_write_branch long_world @ long_path) < PATH_MAX
        \<and> vfs_lstat long_world (read_write_branch long_world @ long_path) < 0
        \<and> PATH_MAX < length (read_only_branch long_world @ long_path)"
    using long_world_lengths(1,2)
    by (simp add: is_flag_set_def PATH_MAX_def long_world_fields(2) ENOENT_def)
  show ?thesis
    using a b find_file_too_long [of long_world longer_path "{}" "[]"]
      find_file_too_long [of long_world long_path "{}" "[]"]
    by simp
qed

text \<open>
  C8 as stated fails: the read-only form of the path is longer than \<open>PATH_MAX\<close>, and
  \<^verbatim>\<open>find_file\<close> calls \<^verbatim>\<open>vfs_lstat\<close> on the writable form before it returns
  \<open>- ENAMETOOLONG\<close>.
\<close>

theorem find_file_too_long_counterexample:
  "PATH_MAX < length (read_only_branch long_world @ long_path)
   \<and> find_file long_world long_path [] {} =
       Some ([Call_vfs_lstat (''/rw'' @ long_path)], Inl (- ENAMETOOLONG),
             take (PATH_MAX - 1) (read_only_branch long_world @ long_path))"
proof -
  have rw: "make_rw_path long_world long_path = (1504, ''/rw'' @ long_path)"
    using long_world_lengths(1)
    by (simp add: make_rw_path_def snprintf_def PATH_MAX_def long_world_fields)
  have ro: "make_ro_path long_world long_path =
            (4502, take (PATH_MAX - 1) (read_only_branch long_world @ long_path))"
    using long_world_lengths(2) by (simp add: make_ro_path_def snprintf_def)
  have "find_file long_world long_path [] {} =
       Some ([Call_vfs_lstat (''/rw'' @ long_path)], Inl (- ENAMETOOLONG),
             take (PATH_MAX - 1) (read_only_branch long_world @ long_path))"
    by (simp add: find_file_def find_file_ro_def rw ro long_world_fields is_flag_set_def
          ENOENT_def PATH_MAX_def)
  then show ?thesis using long_world_lengths(2) by (simp add: PATH_MAX_def)
qed

section \<open>Removal\<close>

lemma rev_upt_nth: "i < n \<Longrightarrow> rev [0..<n] ! i = n - Suc i"
  by (simp add: rev_nth)

lemma strrchr_last:
  assumes "c \<notin> set name"
  shows "strrchr (dir @ c # name) c = Some (length dir)"
proof -
  define s where "s = dir @ c # name"
  define n where "n = length s"
  have n: "n = length dir + Suc (length name)" by (simp add: n_def s_def)
  have i: "length name < length (rev [0..<n])" using n by (simp del: upt_Suc)
  have "length name < n" using n by arith
  then have "rev [0..<n] ! length name = n - Suc (length name)" by (rule rev_upt_nth)
  also have "\<dots> = length dir" using n by arith
  finally have at: "rev [0..<n] ! length name = length dir" .
  have sd: "s ! length dir = c" by (simp add: s_def)
  have hit: "s ! (rev [0..<n] ! length name) = c" by (simp only: at sd)
  have before: "\<forall>j<length name. \<not> s ! (rev [0..<n] ! j) = c"
  proof (intro allI impI)
    fix j assume j: "j < length name"
    then have "j < n" using n by arith
    then have "rev [0..<n] ! j = n - Suc j" by (rule rev_upt_nth)
    also have "\<dots> = length dir + Suc (length name - Suc j)" using n j by arith
    finally have r: "rev [0..<n] ! j = length dir + Suc (length name - Suc j)" .
    have e: "s ! (length dir + Suc (length name - Suc j)) = name ! (length name - Suc j)"
      by (simp add: s_def nth_append)
    have "name ! (length name - Suc j) \<in> set name" using j by simp
    then have "name ! (length name - Suc j) \<noteq> c" using assms by auto
    then show "\<not> s ! (rev [0..<n] ! j) = c" by (simp only: r e not_False_eq_True)
  qed
  have "\<exists>i<length (rev [0..<n]). s ! (rev [0..<n] ! i) = c \<and> length dir = rev [0..<n] ! i
          \<and> (\<forall>j<i. \<not> s ! (rev [0..<n] ! j) = c)"
    using i hit before at by (intro exI [of _ "length name"]) (simp only: simp_thms)
  then have "List.find (\<lambda>j. s ! j = c) (rev [0..<n]) = Some (length dir)"
    by (simp only: find_Some_iff)
  then show ?thesis by (simp only: strrchr_def s_def n_def)
qed

text \<open>
  What \<^verbatim>\<open>can_remove\<close> does with a \<^verbatim>\<open>real_path\<close> that has a slash, \<open>dir\<close> being the text
  in front of its last slash: the guard of line 86 refuses when \<open>dir\<close> is empty, and the
  write request on \<open>dir\<close> decides otherwise.
\<close>

lemma can_remove_parent:
  assumes "real_path = dir @ CHR ''/'' # name" and "CHR ''/'' \<notin> set name"
    and "length dir < PATH_MAX"
  shows "can_remove w path real_path =
           Some (if dir = [] then ([], - EACCES) else can_access w path dir W_OK)"
  using assms strrchr_last [OF assms(2), of dir]
  by (simp add: can_remove_def)

text \<open>
  A branch path is a branch root followed by a union path, which begins with a slash.
  With a root that is not empty the last slash of a branch path is never its first
  character, so the guard of line 86 never refuses a branch path.
\<close>

lemma strrchr_branch_path:
  assumes "root \<noteq> []"
  shows "strrchr (root @ CHR ''/'' # rest) CHR ''/'' \<noteq> Some 0"
proof
  define s where "s = root @ CHR ''/'' # rest"
  assume "strrchr (root @ CHR ''/'' # rest) CHR ''/'' = Some 0"
  then have "strrchr s CHR ''/'' = Some 0" by (simp only: s_def)
  then have none: "filter (\<lambda>i. s ! i = CHR ''/'') [1..<length s] = []"
    by (rule strrchr_leading_only)
  have "1 \<le> length root" using assms by (cases root) simp_all
  moreover have "length root < length s" by (simp add: s_def)
  ultimately have "length root \<in> set [1..<length s]"
    by (simp only: set_upt atLeastLessThan_iff simp_thms)
  moreover have "s ! length root = CHR ''/''" by (simp add: s_def)
  ultimately have "filter (\<lambda>i. s ! i = CHR ''/'') [1..<length s] \<noteq> []"
    by (simp only: filter_empty_conv) blast
  with none show False by simp
qed

lemma can_remove_branch_path_not_refused:
  assumes "root \<noteq> []"
  shows "can_remove w path (root @ CHR ''/'' # rest) \<noteq> Some ([], - EACCES)"
proof -
  have "fst (can_access w path real_path mode) \<noteq> []" for real_path mode
    by (simp add: can_access_def case_prod_beta Let_def)
  then have "can_access w path real_path mode \<noteq> ([], - EACCES)" for real_path mode
    by (metis fst_conv)
  then show ?thesis
    using strrchr_branch_path [OF assms, of rest]
    by (auto simp: can_remove_def Let_def split: option.splits)
qed

text \<open>The root of the union in the writable branch: root and slash.\<close>

lemma can_remove_root_general:
  assumes "read_write_branch w \<noteq> []" and "length (read_write_branch w) < PATH_MAX"
  shows "can_remove w ''/'' (read_write_branch w @ ''/'') =
           Some (can_access w ''/'' (read_write_branch w) W_OK)"
  using assms can_remove_parent [of "read_write_branch w @ ''/''" "read_write_branch w" "[]" w "''/''"]
  by simp

text \<open>
  C6. The code does not refuse the removal of the root of the union. On the mount with
  the branches \<^verbatim>\<open>/ro\<close> and \<^verbatim>\<open>/rw\<close>, \<^verbatim>\<open>find_file\<close> resolves the root \<^verbatim>\<open>/\<close> to the branch path
  \<^verbatim>\<open>/rw/\<close>. Given this path, \<^verbatim>\<open>can_remove\<close> finds the last slash behind \<^verbatim>\<open>/rw\<close> and not at
  the start, so the guard of line 86 does not fire: it calls \<^verbatim>\<open>can_access\<close> on \<^verbatim>\<open>/rw\<close>,
  which makes a stat lookup, and returns its result, here 0, the removal being allowed
  because the attributes of \<^verbatim>\<open>/rw\<close> let the caller write.
\<close>

theorem can_remove_union_root:
  "find_file rooted_world ''/'' [] {} = Some ([Call_vfs_lstat ''/rw/''], Inr READ_WRITE, ''/rw/'')
   \<and> can_remove rooted_world ''/'' ''/rw/'' =
       Some ([Call_get_file_attr_worker ''/'' ''/rw''], 0)"
proof -
  have t: "can_traverse rooted_world ''/'' = Some ([], 0)"
    by (simp add: can_traverse_def snprintf_def rooted_world_def example_world_def
          PATH_MAX_def strrchr_def)
  have f: "find_file rooted_world ''/'' [] {} =
           Some ([Call_vfs_lstat ''/rw/''], Inr READ_WRITE, ''/rw/'')"
    using t
    by (simp add: find_file_def make_rw_path_def snprintf_def PATH_MAX_def is_flag_set_def
          check_traverse_def rooted_world_def example_world_def)
  have r: "can_remove rooted_world ''/'' ''/rw/'' =
           Some ([Call_get_file_attr_worker ''/'' ''/rw''], 0)"
    using strrchr_last [of "CHR ''/''" "[]" "''/rw''"]
    by (simp add: can_remove_def can_access_def rooted_world_def example_world_def
          example_stat_def W_OK_def match_attributes_def RIGHTS_MASK_def PATH_MAX_def)
  show ?thesis using f r by simp
qed

section \<open>Relative paths\<close>

text \<open>
  The loop takes from \<^verbatim>\<open>buflen\<close> the length of every name and one more, and puts the
  names in front of the text, the outermost first.
\<close>

lemma ancestry_loop_result:
  "ancestry_loop d t buflen namelen = Some (t', buflen', namelen') \<Longrightarrow>
   buflen' = buflen - (\<Sum>name\<leftarrow>d. int (length name) + 1)
   \<and> t' = concat (map (\<lambda>name. CHR ''/'' # name) (rev d)) @ t"
proof (induction d arbitrary: t buflen namelen)
  case Nil
  then show ?case by simp
next
  case (Cons d_name d_parent)
  from Cons.prems
  have "ancestry_loop d_parent (CHR ''/'' # d_name @ t) (buflen - (int (length d_name) + 1))
          (Some (length d_name)) = Some (t', buflen', namelen')"
    by (simp split: if_splits)
  from Cons.IH [OF this] show ?case by simp
qed

text \<open>
  So the number that \<^verbatim>\<open>get_full_path\<close> returns on success is the room left in the
  buffer, which shrinks as the path grows; it is not the length of the path.
\<close>

lemma get_full_path_returns_room:
  assumes "get_full_path inode (Some d) = Inr (len, buf)" and "0 \<le> len"
  shows "len = int MAX_PATH - 2 - (\<Sum>name\<leftarrow>d. int (length name) + 1)"
proof -
  from assms obtain t buflen namelen
    where l: "ancestry_loop d [NUL] (int MAX_PATH - 1) None = Some (t, buflen, namelen)"
      and r: "len = buflen - 1"
    by (auto simp: get_full_path_def ENAMETOOLONG_def split: if_splits option.splits)
  from ancestry_loop_result [OF l] r show ?thesis by simp
qed

text \<open>
  What \<^verbatim>\<open>get_full_path\<close> hands back for the entry \<^verbatim>\<open>/ro/foo\<close>: 4087, the room left in its
  buffer, where the text has 7 characters; and a buffer that begins with a slash and a
  terminator, in front of the full path.
\<close>

lemma get_full_path_foo:
  "get_full_path unlinked_inode (Some foo_entry) =
     Inr (4087, CHR ''/'' # NUL # ''/ro/foo'' @ [NUL])"
  by (simp add: get_full_path_def unlinked_inode_def foo_entry_def MAX_PATH_def)

text \<open>
  C7. For the entry of the union path \<^verbatim>\<open>/foo\<close> in the read-only branch \<^verbatim>\<open>/ro\<close>,
  \<^verbatim>\<open>get_relative_path\<close> does not return the path. When the inode has a link, as that of
  an entry in a directory has, the assertion of line 239 fails. When it has none, the
  string that \<^verbatim>\<open>get_full_path\<close> leaves in \<^verbatim>\<open>real_path\<close> is a single slash, neither branch
  root is found at its start, and the result is \<open>- ENODATA\<close>. The same holds when the
  entry is found through the inode.
\<close>

theorem get_relative_path_foo:
  "get_relative_path example_world linked_inode (Some foo_entry) = Inl Assertion_failed
   \<and> get_relative_path example_world unlinked_inode (Some foo_entry) = Inr (- ENODATA, [])
   \<and> get_relative_path example_world unlinked_inode None = Inr (- ENODATA, [])"
proof -
  have a: "get_full_path linked_inode (Some foo_entry) = Inl Assertion_failed"
    by (simp add: get_full_path_def linked_inode_def)
  have b: "get_full_path unlinked_inode None = get_full_path unlinked_inode (Some foo_entry)"
    by (simp add: get_full_path_def unlinked_inode_def)
  have ro: "strncmp_eq ''/ro'' (CHR ''/'' # NUL # ''/ro/foo'' @ [NUL]) 3 = Some False"
    and rw: "strncmp_eq ''/rw'' (CHR ''/'' # NUL # ''/ro/foo'' @ [NUL]) 3 = Some False"
    by (simp_all add: numeral_3_eq_3 NUL_def)
  have c: "get_relative_path example_world unlinked_inode (Some foo_entry) = Inr (- ENODATA, [])"
    using ro rw
    by (simp add: get_relative_path_def get_full_path_foo ro_len_def rw_len_def
          example_world_def)
  have d: "get_relative_path example_world unlinked_inode None = Inr (- ENODATA, [])"
    using c by (simp add: get_relative_path_def b)
  have e: "get_relative_path example_world linked_inode (Some foo_entry) = Inl Assertion_failed"
    by (simp add: get_relative_path_def a)
  show ?thesis using c d e by simp
qed

section \<open>The recursive mutex\<close>

text \<open>An initialised mutex is free.\<close>

lemma recursive_mutex_init_free: "recursive_mutex_init (m\<lparr>acquired := 0\<rparr>) = free_mutex"
  by (simp add: recursive_mutex_init_def free_mutex_def)

text \<open>The statement-wise model and the two functions agree for a thread that runs alone.\<close>

lemma alone_lock: "alone ti Lock m = recursive_mutex_lock ti m"
  by (simp add: alone_def recursive_mutex_lock_def spin_lock_def Let_def)

lemma alone_unlock: "alone ti Unlock m = Some (recursive_mutex_unlock m)"
  by (simp add: alone_def recursive_mutex_unlock_def spin_unlock_def Let_def)

lemma of_nat_eq_iff32:
  assumes "j < 2 ^ 32" "k < 2 ^ 32"
  shows "((of_nat j :: 32 word) = of_nat k) = (j = k)"
  using assms by (simp add: word_of_nat_eq_iff take_bit_nat_eq_self)

lemma of_nat_eq_1: "k < 2 ^ 32 \<Longrightarrow> ((of_nat k :: 32 word) = 1) = (k = 1)"
  using of_nat_eq_iff32 [of k 1] by simp

lemma of_nat_eq_0: "k < 2 ^ 32 \<Longrightarrow> ((of_nat k :: 32 word) = 0) = (k = 0)"
  using of_nat_eq_iff32 [of k 0] by simp

lemma of_nat_2p32: "(of_nat (2 ^ 32) :: 32 word) = 0"
  by simp

lemma lock_first: "recursive_mutex_lock ti free_mutex = Some (held ti 1 1)"
  by (simp add: recursive_mutex_lock_def free_mutex_def spin_lock_def held_def)

lemma lock_again:
  assumes "1 \<le> k" "k < 2 ^ 32"
  shows "recursive_mutex_lock ti (held ti k a) = Some (held ti (Suc k) a)"
proof -
  have "(of_nat k :: 32 word) + 1 = of_nat (Suc k)" by simp
  moreover have "(of_nat (Suc k) :: 32 word) \<noteq> 1"
  proof (cases "Suc k < 2 ^ 32")
    case True
    then show ?thesis using assms of_nat_eq_1 [of "Suc k"] by simp
  next
    case False
    then have "Suc k = 2 ^ 32" using assms by simp
    then show ?thesis by (metis of_nat_2p32 zero_neq_one)
  qed
  ultimately show ?thesis
    by (simp add: recursive_mutex_lock_def held_def del: of_nat_Suc)
qed

lemma lock_times_held:
  "1 \<le> k \<Longrightarrow> k + n \<le> 2 ^ 32 \<Longrightarrow> lock_times n ti (held ti k a) = Some (held ti (k + n) a)"
proof (induction n arbitrary: k)
  case 0
  then show ?case by simp
next
  case (Suc n)
  then have "k < 2 ^ 32" by simp
  then show ?case using Suc.prems Suc.IH [of "Suc k"] lock_again [of k ti a] by simp
qed

lemma lock_times_free:
  assumes "1 \<le> n" "n \<le> 2 ^ 32"
  shows "lock_times n ti free_mutex = Some (held ti n 1)"
proof -
  obtain n' where n: "n = Suc n'" using assms(1) by (cases n) simp_all
  show ?thesis using assms lock_times_held [of 1 n' ti 1] by (simp add: n lock_first)
qed

lemma unlock_last: "recursive_mutex_unlock (held ti 1 a) = free_mutex\<lparr>acquired := a\<rparr>"
  by (simp add: recursive_mutex_unlock_def held_def spin_unlock_def free_mutex_def)

lemma unlock_inner:
  assumes "1 \<le> k" "k < 2 ^ 32"
  shows "recursive_mutex_unlock (held ti (Suc k) a) = held ti k a"
proof -
  have "(of_nat (Suc k) :: 32 word) - 1 = of_nat k" by simp
  moreover have "(of_nat k :: 32 word) \<noteq> 0" using assms of_nat_eq_0 [of k] by simp
  ultimately show ?thesis
    by (simp add: recursive_mutex_unlock_def held_def del: of_nat_Suc)
qed

lemma unlock_times_held:
  "n \<le> 2 ^ 32 \<Longrightarrow> 1 \<le> n \<Longrightarrow> unlock_times n (held ti n a) = free_mutex\<lparr>acquired := a\<rparr>"
proof (induction n)
  case 0
  then show ?case by simp
next
  case (Suc n)
  show ?case
  proof (cases "n = 0")
    case True
    then show ?thesis using unlock_last [of ti a] by simp
  next
    case False
    then have "1 \<le> n" "n < 2 ^ 32" using Suc.prems by simp_all
    then show ?thesis using Suc.IH unlock_inner [of n ti a] by simp
  qed
qed

lemma lock_times_add:
  "lock_times (a + b) ti m =
     (case lock_times a ti m of None \<Rightarrow> None | Some m' \<Rightarrow> lock_times b ti m')"
  by (induction a arbitrary: m) (simp_all split: option.splits)

lemma lock_times_overflow: "lock_times (2 ^ 32 + 1) ti free_mutex = None"
proof -
  have a: "lock_times (2 ^ 32) ti free_mutex = Some (held ti (2 ^ 32) 1)"
    by (rule lock_times_free) simp_all
  have b: "lock_times 1 ti (held ti (2 ^ 32) 1) = None"
    by (simp add: recursive_mutex_lock_def held_def spin_lock_def)
  show ?thesis using a b by (simp only: lock_times_add option.case)
qed

text \<open>
  C9, as amended. For every \<open>n\<close> from 1 to \<open>2 ^ 32\<close>, the range of the counter, a thread
  that calls \<^verbatim>\<open>recursive_mutex_lock\<close> \<open>n\<close> times on a free mutex returns from every call and
  then holds the mutex at depth \<open>n\<close>, the spin lock having been taken once, by the first
  call; \<open>n\<close> calls of \<^verbatim>\<open>recursive_mutex_unlock\<close> then leave the mutex free again: counter
  zero, no owner, spin lock released.
\<close>

theorem lock_unlock_times:
  assumes "1 \<le> n" and "n \<le> 2 ^ 32"
  shows "lock_times n ti free_mutex = Some (held ti n 1)
         \<and> unlock_times n (held ti n 1) = free_mutex\<lparr>acquired := 1\<rparr>"
  using assms lock_times_free [of n ti] unlock_times_held [of n ti 1] by simp

theorem lock_unlock_times_witness:
  "(1::nat) \<le> 3 \<and> (3::nat) \<le> 2 ^ 32
   \<and> lock_times 3 7 free_mutex =
       Some \<lparr>count = 3, owner = Some 7, lock = Some 7, acquired = 1\<rparr>
   \<and> unlock_times 3 \<lparr>count = 3, owner = Some 7, lock = Some 7, acquired = 1\<rparr> =
       \<lparr>count = 0, owner = None, lock = None, acquired = 1\<rparr>"
proof -
  have a: "(1::nat) \<le> 3" and b: "(3::nat) \<le> 2 ^ 32" by simp_all
  show ?thesis using a b lock_unlock_times [OF a b, of 7]
    by (simp add: held_def free_mutex_def)
qed

text \<open>
  C9 as stated fails for \<open>n = 2 ^ 32 + 1\<close>: the counter has wrapped around to 0 after
  \<open>2 ^ 32\<close> calls, the next call sees the value 1 and waits for the spin lock that its own
  thread holds.
\<close>

theorem lock_unlock_times_counterexample:
  "lock_times (2 ^ 32) 7 free_mutex = Some (held 7 (2 ^ 32) 1)
   \<and> count (held 7 (2 ^ 32) 1) = 0
   \<and> lock_times (2 ^ 32 + 1) 7 free_mutex = None"
  using lock_times_free [of "2 ^ 32" 7] lock_times_overflow [of 7]
  by (simp add: held_def)

text \<open>
  C10. Thread 1 has raised the counter to 1 and not yet taken the spin lock when thread 2
  enters \<^verbatim>\<open>recursive_mutex_lock\<close>: thread 2 reads the counter 2, is not the owner, takes
  the free spin lock at line 39 and returns. It now holds the spin lock, and the owner
  field is still empty: line 39 is not followed by an assignment to \<^verbatim>\<open>owner\<close> as line 29
  is. When thread 2 enters again, it is not the recorded owner and cannot get past the
  spin lock it holds itself.
\<close>

theorem owner_not_rewritten:
  "map_option (\<lambda>s. (owner (mutex s), lock (mutex s), position s 2))
     (run [(1, Lock), (2, Lock), (2, Lock), (2, Lock)] start) = Some (None, Some 2, Out)
   \<and> run ([(1, Lock), (2, Lock), (2, Lock), (2, Lock)] @ [(2, Lock), (2, Lock), (2, Lock)]) start
       = None"
  by (simp add: start_def free_mutex_def spin_lock_def)

end
